theory Spec2Isabelle
  imports Complex_Main
begin

section \<open>Charge curve estimation: the data handler's curve read and write operations\<close>

text \<open>
  The operations embedded here are \<^verbatim>\<open>DBInterface.getChargeCurve\<close>,
  \<^verbatim>\<open>DBInterface.setChargeCurve\<close> and \<^verbatim>\<open>DBInterface.chargeCalibration\<close> of the data
  handler. Each issues SQL against the tables \<^verbatim>\<open>charge\<close> and \<^verbatim>\<open>charge_curve\<close>; the
  tables are lists of rows, the queries are list functions that follow the SQL text, and
  the TypeScript around the queries is translated statement by statement.

  Numbers: levels, durations and the session columns are integers (the client's mutation
  declares them \<^verbatim>\<open>Int\<close>). \<^verbatim>\<open>percentile_cont\<close> returns \<^verbatim>\<open>double precision\<close>, which
  reaches the TypeScript as a number; it is computed here in exact rational arithmetic.
  \<^verbatim>\<open>AVG\<close> over integers and over \<^verbatim>\<open>numeric\<close> returns \<^verbatim>\<open>numeric\<close>, which the
  database driver hands over as its decimal text (the data handler sets no driver option,
  \<^verbatim>\<open>DB_OPTIONS = {}\<close>, and registers no type parser): a non-empty string.
\<close>

subsection \<open>Tables\<close>

type_synonym uuid = string

text \<open>
  Modelled from the spec: the declaration of table \<^verbatim>\<open>charge\<close> (the data handler imports its
  row types from the schema module). A session carries \<^verbatim>\<open>chargeID\<close>, \<^verbatim>\<open>vehicleID\<close>,
  \<^verbatim>\<open>locationID\<close>, \<^verbatim>\<open>targetLevel\<close>, \<^verbatim>\<open>endLevel\<close> and \<^verbatim>\<open>estimatedMinutes\<close>; the
  column names are those the queries use.
\<close>

record DBCharge =
  charge_id :: int
  vehicle_uuid :: uuid
  location_uuid :: uuid
  target_level :: int
  estimate :: int
  end_level :: int

text \<open>
  Modelled from the spec: the declaration of table \<^verbatim>\<open>charge_curve\<close>: one table
  keyed by \<^verbatim>\<open>(vehicle_uuid, level, charge_id)\<close> (the key the \<^verbatim>\<open>ON CONFLICT\<close> clause
  names) with the column \<^verbatim>\<open>duration\<close> and the optional columns
  \<^verbatim>\<open>outside_deci_temperature\<close>, \<^verbatim>\<open>energy_used\<close> and \<^verbatim>\<open>energy_added\<close>. An optional
  column is nullable (\<open>None\<close> is SQL \<^verbatim>\<open>NULL\<close>) and has no declared default, so a column
  left out of an \<^verbatim>\<open>INSERT\<close> is \<^verbatim>\<open>NULL\<close>. The table has no further constraint.
\<close>

record DBChargeCurve =
  vehicle_uuid :: uuid
  charge_id :: int
  level :: int
  duration :: int
  outside_deci_temperature :: "int option"
  energy_used :: "int option"
  energy_added :: "int option"

record DB =
  charge :: "DBCharge list"
  charge_curve :: "DBChargeCurve list"

text \<open>The unique index on \<^verbatim>\<open>charge_curve\<close>: no two rows share a key.\<close>

definition curve_key :: "DBChargeCurve \<Rightarrow> uuid \<times> int \<times> int" where
  "curve_key r = (DBChargeCurve.vehicle_uuid r, level r, DBChargeCurve.charge_id r)"

definition unique_keys :: "DB \<Rightarrow> bool" where
  "unique_keys db = distinct (map curve_key (charge_curve db))"

subsection \<open>Values and aggregates\<close>

text \<open>
  A PostgreSQL \<^verbatim>\<open>numeric\<close>: its value and its display scale, the number of digits
  printed after the decimal point.
\<close>

record numeric =
  val :: rat
  dscale :: nat

text \<open>
  A query result as the TypeScript sees it: \<^verbatim>\<open>null\<close>, a number, or the decimal text of
  a \<^verbatim>\<open>numeric\<close> (\<open>val\<close> printed with \<open>dscale\<close> decimals).
\<close>

datatype js_value = Null | Number rat | NumericString numeric

datatype error = AssertionError | QueryError

text \<open>
  JavaScript truthiness and the operator \<^verbatim>\<open>||\<close> on such values: \<^verbatim>\<open>null\<close> and the
  number 0 are falsy; a non-empty string is truthy, also when it reads \<^verbatim>\<open>0.000\<close>.
\<close>

fun truthy :: "js_value \<Rightarrow> bool" where
  "truthy Null = False"
| "truthy (Number x) = (x \<noteq> 0)"
| "truthy (NumericString n) = True"

definition js_or :: "js_value \<Rightarrow> js_value \<Rightarrow> js_value" where
  "js_or a b = (if truthy a then a else b)"

text \<open>
  Arithmetic on \<^verbatim>\<open>numeric\<close> as PostgreSQL performs it. An integer is cast with
  display scale 0; a product and a sum are exact, the product with the sum of the two
  scales and the sum with the greater one.
\<close>

definition numeric_of_int :: "int \<Rightarrow> numeric" where
  "numeric_of_int i = \<lparr> val = of_int i, dscale = 0 \<rparr>"

definition numeric_mul :: "numeric \<Rightarrow> numeric \<Rightarrow> numeric" where
  "numeric_mul a b = \<lparr> val = val a * val b, dscale = dscale a + dscale b \<rparr>"

definition numeric_add :: "numeric \<Rightarrow> numeric \<Rightarrow> numeric" where
  "numeric_add a b = \<lparr> val = val a + val b, dscale = max (dscale a) (dscale b) \<rparr>"

text \<open>
  A \<^verbatim>\<open>numeric\<close> is stored in digits of base 10000. \<open>nbase_digits n\<close> is the number of
  such digits of a positive integer; \<open>weight x\<close> is the exponent of the leading non-zero
  digit of \<open>x\<close> (\<open>10000 ^ weight x \<le> \<bar>x\<bar> < 10000 ^ (weight x + 1)\<close>) and \<open>first_digit x\<close>
  is that digit; both are 0 for the value 0.
\<close>

function nbase_digits :: "int \<Rightarrow> nat" where
  "nbase_digits n = (if n < 10000 then 1 else Suc (nbase_digits (n div 10000)))"
  by pat_completeness auto
termination
  by (relation "measure nat") auto

declare nbase_digits.simps [simp del]

definition weight :: "rat \<Rightarrow> int" where
  "weight x =
     (if x = 0 then 0
      else if 1 \<le> \<bar>x\<bar> then int (nbase_digits \<lfloor>\<bar>x\<bar>\<rfloor>) - 1
      else - int (nbase_digits (\<lceil>1 / \<bar>x\<bar>\<rceil> - 1)))"

definition first_digit :: "rat \<Rightarrow> int" where
  "first_digit x =
     (if x = 0 then 0
      else if 0 \<le> weight x then \<lfloor>\<bar>x\<bar> / 10000 ^ nat (weight x)\<rfloor>
      else \<lfloor>\<bar>x\<bar> * 10000 ^ nat (- weight x)\<rfloor>)"

text \<open>
  The result scale of a division (PostgreSQL's \<^verbatim>\<open>select_div_scale\<close>): enough decimals
  for at least 16 significant digits, judged by the weights and leading digits of the
  operands, not fewer than either operand's display scale, and at most 1000.
\<close>

definition select_div_scale :: "numeric \<Rightarrow> numeric \<Rightarrow> nat" where
  "select_div_scale var1 var2 =
     (let qweight = weight (val var1) - weight (val var2)
                      - (if first_digit (val var1) \<le> first_digit (val var2) then 1 else 0);
          rscale = 16 - qweight * 4;
          rscale = max rscale (int (dscale var1));
          rscale = max rscale (int (dscale var2));
          rscale = max rscale 0;
          rscale = min rscale 1000
      in nat rscale)"

text \<open>Rounding to \<open>rscale\<close> decimals, a half away from zero.\<close>

definition round_var :: "rat \<Rightarrow> nat \<Rightarrow> rat" where
  "round_var x rscale = sgn x * of_int \<lfloor>\<bar>x\<bar> * 10 ^ rscale + 1 / 2\<rfloor> / 10 ^ rscale"

text \<open>
  The quotient, rounded to the selected scale. PostgreSQL raises an error on a zero
  divisor; the queries below divide by a row count and by a positive difference only.
\<close>

definition numeric_div :: "numeric \<Rightarrow> numeric \<Rightarrow> numeric" where
  "numeric_div var1 var2 =
     (let rscale = select_div_scale var1 var2
      in \<lparr> val = round_var (val var1 / val var2) rscale, dscale = rscale \<rparr>)"

text \<open>
  \<^verbatim>\<open>AVG\<close>: \<^verbatim>\<open>NULL\<close> over no rows; otherwise the exact sum divided by the row count,
  as a \<^verbatim>\<open>numeric\<close>, which arrives as its text.
\<close>

definition sql_avg :: "numeric list \<Rightarrow> js_value" where
  "sql_avg xs =
     (if xs = [] then Null
      else NumericString
             (numeric_div (fold (\<lambda>x sum. numeric_add sum x) xs \<lparr> val = 0, dscale = 0 \<rparr>)
                (numeric_of_int (int (length xs)))))"

text \<open>\<^verbatim>\<open>MAX\<close>: \<^verbatim>\<open>NULL\<close> over no rows, the greatest value otherwise.\<close>

definition sql_max :: "int list \<Rightarrow> int option" where
  "sql_max xs = (case xs of [] \<Rightarrow> None | x # ys \<Rightarrow> Some (fold max ys x))"

text \<open>
  \<^verbatim>\<open>percentile_cont(p) WITHIN GROUP (ORDER BY ...)\<close> as PostgreSQL computes it: over
  \<open>n\<close> sorted values the target row is \<open>p * (n - 1)\<close>, counted from 0; when that is a whole
  number the value of that row is the result, otherwise the result interpolates linearly
  between the two neighbouring rows. The fraction lies in \<open>[0, 1]\<close> (PostgreSQL rejects
  any other); the queries below pass \<open>1/2\<close>.
\<close>

definition percentile_cont :: "rat \<Rightarrow> int list \<Rightarrow> js_value" where
  "percentile_cont p xs =
     (if xs = [] then Null
      else let s = sort xs;
               rn = p * of_nat (length s - 1);
               first_row = nat \<lfloor>rn\<rfloor>;
               second_row = nat \<lceil>rn\<rceil>
           in if first_row = second_row then Number (of_int (s ! first_row))
              else Number (of_int (s ! first_row)
                     + (rn - of_nat first_row) * (of_int (s ! second_row) - of_int (s ! first_row))))"

text \<open>A scalar subquery: no row is \<^verbatim>\<open>NULL\<close>, one row is its value, more rows are an error.\<close>

definition scalar_subquery :: "'a list \<Rightarrow> error + 'a option" where
  "scalar_subquery rows =
     (case rows of [] \<Rightarrow> Inr None | [x] \<Rightarrow> Inr (Some x) | _ \<Rightarrow> Inl QueryError)"

subsection \<open>The queries of \<^verbatim>\<open>getChargeCurve\<close>\<close>

text \<open>
  \<^verbatim>\<open>FROM charge a JOIN charge_curve b ON (a.charge_id = b.charge_id)
  WHERE a.vehicle_uuid = $1 AND a.location_uuid = $2\<close>
\<close>

definition joined :: "DB \<Rightarrow> uuid \<Rightarrow> uuid \<Rightarrow> (DBCharge \<times> DBChargeCurve) list" where
  "joined db v l =
     [(a, b). a \<leftarrow> charge db, b \<leftarrow> charge_curve db,
        DBCharge.charge_id a = DBChargeCurve.charge_id b,
        DBCharge.vehicle_uuid a = v, location_uuid a = l]"

text \<open>
  \<^verbatim>\<open>SELECT level, percentile_cont(0.5) WITHIN GROUP (ORDER BY duration) AS seconds
  ... GROUP BY level ORDER BY level\<close>: one row \<open>(level, seconds)\<close> per level that has a
  sample, in ascending order of level.
\<close>

definition level_durations :: "DB \<Rightarrow> uuid \<Rightarrow> uuid \<Rightarrow> int \<Rightarrow> int list" where
  "level_durations db v l lv = [duration b. (a, b) \<leftarrow> joined db v l, level b = lv]"

definition dbCurve_query :: "DB \<Rightarrow> uuid \<Rightarrow> uuid \<Rightarrow> (int \<times> js_value) list" where
  "dbCurve_query db v l =
     map (\<lambda>lv. (lv, percentile_cont (1/2) (level_durations db v l lv)))
       (sort (remdups (map (\<lambda>(a, b). level b) (joined db v l))))"

text \<open>\<^verbatim>\<open>SELECT AVG(duration) FROM charge a JOIN charge_curve b ... WHERE ...\<close>\<close>

definition avg_duration_query :: "DB \<Rightarrow> uuid \<Rightarrow> uuid \<Rightarrow> js_value" where
  "avg_duration_query db v l = sql_avg [numeric_of_int (duration b). (a, b) \<leftarrow> joined db v l]"

text \<open>
  \<^verbatim>\<open>SELECT AVG(60.0 * estimate / (target_level-end_level)) FROM charge
  WHERE end_level < target_level AND vehicle_uuid = $1 AND location_uuid = $2\<close>
\<close>

definition avg_estimate_query :: "DB \<Rightarrow> uuid \<Rightarrow> uuid \<Rightarrow> js_value" where
  "avg_estimate_query db v l =
     sql_avg [numeric_div (numeric_mul \<lparr> val = 60, dscale = 1 \<rparr> (numeric_of_int (estimate c)))
                (numeric_of_int (target_level c - end_level c)).
                c \<leftarrow> charge db, end_level c < target_level c,
                DBCharge.vehicle_uuid c = v, location_uuid c = l]"

subsection \<open>\<^verbatim>\<open>getChargeCurve\<close>\<close>

type_synonym ChargeCurve = "int \<rightharpoonup> js_value"

text \<open>
  The inner loop
  \<^verbatim>\<open>while (dbCurve.length > 0 && level >= dbCurve[0].level) current = dbCurve.shift()!.seconds\<close>:
  it returns what is left of the queue and the new \<^verbatim>\<open>current\<close>.
\<close>

fun shift_loop :: "int \<Rightarrow> (int \<times> js_value) list \<Rightarrow> js_value
    \<Rightarrow> (int \<times> js_value) list \<times> js_value" where
  "shift_loop lv [] current = ([], current)"
| "shift_loop lv ((l, s) # q) current =
     (if lv \<ge> l then shift_loop lv q s else ((l, s) # q, current))"

text \<open>The outer loop \<^verbatim>\<open>for (let level = 0; level <= 100; ++level)\<close>.\<close>

function curve_loop :: "int \<Rightarrow> (int \<times> js_value) list \<Rightarrow> js_value
    \<Rightarrow> ChargeCurve \<Rightarrow> ChargeCurve" where
  "curve_loop lv q current curve =
     (if lv \<le> 100
      then (case shift_loop lv q current of
              (q', current') \<Rightarrow> curve_loop (lv + 1) q' current' (curve(lv \<mapsto> current')))
      else curve)"
  by pat_completeness auto
termination
  by (relation "measure (\<lambda>(lv, q, current, curve). nat (101 - lv))") auto

declare curve_loop.simps [simp del]

text \<open>
  The seed when the query returns no row:
  \<^verbatim>\<open>(await ...).avg || (await ...).avg || 20 * 60\<close>, as a function of the two averages.
\<close>

definition fallback_seed :: "js_value \<Rightarrow> js_value \<Rightarrow> js_value" where
  "fallback_seed avg_duration avg_estimate = js_or (js_or avg_duration avg_estimate) (Number (20 * 60))"

definition getChargeCurve :: "DB \<Rightarrow> uuid \<Rightarrow> uuid \<Rightarrow> error + ChargeCurve" where
  "getChargeCurve db vehicle location =
     (let dbCurve = dbCurve_query db vehicle location;
          (current, dbCurve') =
            (case dbCurve of
               (l, seconds) # rest \<Rightarrow> (seconds, rest)
             | [] \<Rightarrow>
                 (fallback_seed (avg_duration_query db vehicle location)
                                (avg_estimate_query db vehicle location),
                  []))
      in if current = Null then Inl AssertionError
         else Inr (curve_loop 0 dbCurve' current Map.empty))"

subsection \<open>\<^verbatim>\<open>setChargeCurve\<close>\<close>

text \<open>An optional parameter of type \<^verbatim>\<open>number | undefined\<close>.\<close>

datatype optional_number = Undefined | Defined int

text \<open>
  The object \<^verbatim>\<open>input\<close> names a column only when the parameter is defined; a column
  the \<^verbatim>\<open>INSERT\<close> does not name takes the column default, \<^verbatim>\<open>NULL\<close>.
\<close>

fun column_value :: "optional_number \<Rightarrow> int option" where
  "column_value Undefined = None"
| "column_value (Defined x) = Some x"

definition input_row :: "uuid \<Rightarrow> int \<Rightarrow> int \<Rightarrow> int
    \<Rightarrow> optional_number \<Rightarrow> optional_number \<Rightarrow> optional_number \<Rightarrow> DBChargeCurve" where
  "input_row v c lv d t u a =
     \<lparr> vehicle_uuid = v, charge_id = c, level = lv, duration = d,
       outside_deci_temperature = column_value t,
       energy_used = column_value u,
       energy_added = column_value a \<rparr>"

text \<open>\<^verbatim>\<open>ON CONFLICT(vehicle_uuid,level,charge_id)\<close>\<close>

definition conflicts :: "DBChargeCurve \<Rightarrow> DBChargeCurve \<Rightarrow> bool" where
  "conflicts excluded r = (curve_key r = curve_key excluded)"

text \<open>
  \<^verbatim>\<open>DO UPDATE SET outside_deci_temperature = EXCLUDED.outside_deci_temperature,
  duration = EXCLUDED.duration, energy_used = EXCLUDED.energy_used,
  energy_added = EXCLUDED.energy_added\<close>
\<close>

definition do_update :: "DBChargeCurve \<Rightarrow> DBChargeCurve \<Rightarrow> DBChargeCurve" where
  "do_update excluded r =
     r\<lparr> outside_deci_temperature := outside_deci_temperature excluded,
        duration := duration excluded,
        energy_used := energy_used excluded,
        energy_added := energy_added excluded \<rparr>"

text \<open>The statement returns the row it inserted or updated (\<^verbatim>\<open>RETURNING *\<close>).\<close>

definition setChargeCurve :: "DB \<Rightarrow> uuid \<Rightarrow> int \<Rightarrow> int \<Rightarrow> int
    \<Rightarrow> optional_number \<Rightarrow> optional_number \<Rightarrow> optional_number \<Rightarrow> DBChargeCurve \<times> DB" where
  "setChargeCurve db vehicle cid lv d temperature used added =
     (let input = input_row vehicle cid lv d temperature used added
      in case filter (conflicts input) (charge_curve db) of
           [] \<Rightarrow> (input, db\<lparr> charge_curve := charge_curve db @ [input] \<rparr>)
         | r # _ \<Rightarrow>
             (do_update input r,
              db\<lparr> charge_curve :=
                    map (\<lambda>r. if conflicts input r then do_update input r else r)
                      (charge_curve db) \<rparr>))"

subsection \<open>\<^verbatim>\<open>chargeCalibration\<close>\<close>

text \<open>
  \<^verbatim>\<open>SELECT MAX(level) as level FROM charge a JOIN charge_curve b ON(a.charge_id = b.charge_id)
  WHERE a.vehicle_uuid = $1
    AND a.location_uuid = (SELECT location_uuid FROM charge c WHERE c.charge_id = $2)\<close>.
  A comparison with \<^verbatim>\<open>NULL\<close> selects no row.
\<close>

definition chargeCalibration :: "DB \<Rightarrow> uuid \<Rightarrow> int \<Rightarrow> error + int option" where
  "chargeCalibration db vehicle cid =
     (case scalar_subquery
             [location_uuid c. c \<leftarrow> charge db, DBCharge.charge_id c = cid] of
        Inl e \<Rightarrow> Inl e
      | Inr loc \<Rightarrow>
          Inr (sql_max
                 [level b. a \<leftarrow> charge db, b \<leftarrow> charge_curve db,
                    DBCharge.charge_id a = DBChargeCurve.charge_id b,
                    DBCharge.vehicle_uuid a = vehicle,
                    Some (location_uuid a) = loc]))"

section \<open>Reference notions and example databases\<close>

text \<open>
  The median in the spec's words: the middle value of the sorted durations, and the mean
  of the two middle values when their number is even (the 50th percentile with continuous
  interpolation).
\<close>

definition spec_median :: "int list \<Rightarrow> rat" where
  "spec_median xs =
     (let s = sort xs; n = length s
      in if odd n then of_int (s ! (n div 2))
         else (of_int (s ! (n div 2 - 1)) + of_int (s ! (n div 2))) / 2)"

text \<open>
  The value \<^verbatim>\<open>current\<close> after a run of queue entries has been popped: the seconds of
  the last one, or the old value when none was popped.
\<close>

definition adopt :: "(int \<times> js_value) list \<Rightarrow> js_value \<Rightarrow> js_value" where
  "adopt popped current = (if popped = [] then current else snd (last popped))"

text \<open>
  Vehicle \<open>v1\<close> with two sessions at \<open>home\<close> and one at \<open>work\<close>. At \<open>home\<close> level 10
  has the durations 90 and 110 (median 100) and level 50 has the duration 300; at
  \<open>work\<close> level 70 has the duration 500.
\<close>

definition example_db :: DB where
  "example_db =
     \<lparr> charge =
         [\<lparr> DBCharge.charge_id = 1, vehicle_uuid = ''v1'', location_uuid = ''home'',
             target_level = 90, estimate = 120, end_level = 90 \<rparr>,
          \<lparr> DBCharge.charge_id = 2, vehicle_uuid = ''v1'', location_uuid = ''home'',
             target_level = 90, estimate = 100, end_level = 90 \<rparr>,
          \<lparr> DBCharge.charge_id = 3, vehicle_uuid = ''v1'', location_uuid = ''work'',
             target_level = 80, estimate = 60, end_level = 80 \<rparr>],
       charge_curve =
         [\<lparr> vehicle_uuid = ''v1'', charge_id = 1, level = 50, duration = 300,
             outside_deci_temperature = None, energy_used = None, energy_added = None \<rparr>,
          \<lparr> vehicle_uuid = ''v1'', charge_id = 1, level = 10, duration = 90,
             outside_deci_temperature = None, energy_used = None, energy_added = None \<rparr>,
          \<lparr> vehicle_uuid = ''v1'', charge_id = 2, level = 10, duration = 110,
             outside_deci_temperature = None, energy_used = None, energy_added = None \<rparr>,
          \<lparr> vehicle_uuid = ''v1'', charge_id = 3, level = 70, duration = 500,
             outside_deci_temperature = None, energy_used = None, energy_added = None \<rparr>] \<rparr>"

text \<open>Three sessions of \<open>v1\<close> at \<open>home\<close>, each with one sample at level 20: 1000, 10 and 20 seconds.\<close>

definition outlier_db :: DB where
  "outlier_db =
     \<lparr> charge =
         [\<lparr> DBCharge.charge_id = 1, vehicle_uuid = ''v1'', location_uuid = ''home'',
             target_level = 90, estimate = 120, end_level = 90 \<rparr>,
          \<lparr> DBCharge.charge_id = 2, vehicle_uuid = ''v1'', location_uuid = ''home'',
             target_level = 90, estimate = 100, end_level = 90 \<rparr>,
          \<lparr> DBCharge.charge_id = 3, vehicle_uuid = ''v1'', location_uuid = ''home'',
             target_level = 80, estimate = 60, end_level = 80 \<rparr>],
       charge_curve =
         [\<lparr> vehicle_uuid = ''v1'', charge_id = 1, level = 20, duration = 1000,
             outside_deci_temperature = None, energy_used = None, energy_added = None \<rparr>,
          \<lparr> vehicle_uuid = ''v1'', charge_id = 2, level = 20, duration = 10,
             outside_deci_temperature = None, energy_used = None, energy_added = None \<rparr>,
          \<lparr> vehicle_uuid = ''v1'', charge_id = 3, level = 20, duration = 20,
             outside_deci_temperature = None, energy_used = None, energy_added = None \<rparr>] \<rparr>"



section \<open>Properties of the write operation\<close>

subsection \<open>What \<^verbatim>\<open>setChargeCurve\<close> returns and stores\<close>

lemma curve_key_input_row [simp]: "curve_key (input_row v c lv d t u a) = (v, lv, c)"
  by (simp add: curve_key_def input_row_def)

lemma conflicts_input_row [simp]:
  "conflicts (input_row v c lv d t u a) r = (curve_key r = (v, lv, c))"
  by (simp add: conflicts_def)

lemma conflicts_input_row_fun:
  "conflicts (input_row v c lv d t u a) = (\<lambda>r. curve_key r = (v, lv, c))"
  by (rule ext) simp

lemma do_update_same_key: "curve_key r = curve_key e \<Longrightarrow> do_update e r = e"
  by (cases r, cases e) (simp add: do_update_def curve_key_def)

lemma setChargeCurve_fst:
  "fst (setChargeCurve db v c lv d t u a) = input_row v c lv d t u a"
proof (cases "filter (conflicts (input_row v c lv d t u a)) (charge_curve db)")
  case Nil
  then show ?thesis by (simp add: setChargeCurve_def Let_def)
next
  case (Cons r rs)
  then have "r \<in> set (filter (conflicts (input_row v c lv d t u a)) (charge_curve db))"
    by simp
  then have "curve_key r = curve_key (input_row v c lv d t u a)"
    by simp
  then have "do_update (input_row v c lv d t u a) r = input_row v c lv d t u a"
    by (rule do_update_same_key)
  with Cons show ?thesis by (simp add: setChargeCurve_def Let_def)
qed

lemma setChargeCurve_rows:
  "charge_curve (snd (setChargeCurve db v c lv d t u a)) =
     (if filter (\<lambda>r. curve_key r = (v, lv, c)) (charge_curve db) = []
      then charge_curve db @ [input_row v c lv d t u a]
      else map (\<lambda>r. if curve_key r = (v, lv, c) then input_row v c lv d t u a else r)
             (charge_curve db))"
proof -
  have "do_update (input_row v c lv d t u a) r = input_row v c lv d t u a"
    if "curve_key r = (v, lv, c)" for r
    using that by (simp add: do_update_same_key)
  then have "(\<lambda>r. if conflicts (input_row v c lv d t u a) r
                 then do_update (input_row v c lv d t u a) r else r)
           = (\<lambda>r. if curve_key r = (v, lv, c) then input_row v c lv d t u a else r)"
    by auto
  then show ?thesis
    by (simp add: setChargeCurve_def Let_def conflicts_input_row_fun split: list.splits)
qed

lemma setChargeCurve_charge: "charge (snd (setChargeCurve db v c lv d t u a)) = charge db"
  by (simp add: setChargeCurve_def Let_def split: list.splits)

lemma filter_other_overwrite:
  "curve_key e = k \<Longrightarrow> k' \<noteq> k \<Longrightarrow>
   filter (\<lambda>r. curve_key r = k') (map (\<lambda>r. if curve_key r = k then e else r) rows)
     = filter (\<lambda>r. curve_key r = k') rows"
  by (induction rows) auto

lemma filter_neq_overwrite:
  "curve_key e = k \<Longrightarrow>
   filter (\<lambda>r. curve_key r \<noteq> k) (map (\<lambda>r. if curve_key r = k then e else r) rows)
     = filter (\<lambda>r. curve_key r \<noteq> k) rows"
  by (induction rows) auto

lemma keys_overwrite:
  "curve_key e = k \<Longrightarrow>
   map (curve_key \<circ> (\<lambda>r. if curve_key r = k then e else r)) rows = map curve_key rows"
  by (induction rows) auto

lemma filter_key_overwrite:
  "curve_key e = k \<Longrightarrow> distinct (map curve_key rows) \<Longrightarrow>
   filter (\<lambda>r. curve_key r = k) rows \<noteq> [] \<Longrightarrow>
   filter (\<lambda>r. curve_key r = k) (map (\<lambda>r. if curve_key r = k then e else r) rows) = [e]"
proof (induction rows)
  case Nil
  then show ?case by simp
next
  case (Cons r rows)
  show ?case
  proof (cases "curve_key r = k")
    case True
    from Cons.prems(2) have "curve_key r \<notin> curve_key ` set rows" by simp
    with True have "\<forall>x \<in> set rows. curve_key x \<noteq> k" by blast
    then have "filter (\<lambda>r. curve_key r = k) (map (\<lambda>r. if curve_key r = k then e else r) rows) = []"
      by (simp add: filter_empty_conv)
    with True Cons.prems(1) show ?thesis by simp
  next
    case False
    with Cons show ?thesis by simp
  qed
qed

lemma filter_key_empty: "(filter (\<lambda>r. curve_key r = k) rows = []) = (k \<notin> set (map curve_key rows))"
  by (auto simp: filter_empty_conv)

lemma setChargeCurve_unique:
  "unique_keys db \<Longrightarrow> unique_keys (snd (setChargeCurve db v c lv d t u a))"
  unfolding unique_keys_def setChargeCurve_rows
  by (simp add: keys_overwrite filter_key_empty del: set_map)

lemma setChargeCurve_key_rows:
  assumes "unique_keys db"
  shows "filter (\<lambda>r. curve_key r = (v, lv, c)) (charge_curve (snd (setChargeCurve db v c lv d t u a)))
           = [input_row v c lv d t u a]"
proof (cases "filter (\<lambda>r. curve_key r = (v, lv, c)) (charge_curve db) = []")
  case True
  then show ?thesis by (simp add: setChargeCurve_rows)
next
  case False
  with assms show ?thesis
    by (simp add: setChargeCurve_rows unique_keys_def filter_key_overwrite)
qed

section \<open>Properties of the calibration query\<close>

lemma sql_max_eq: "sql_max xs = (if xs = [] then None else Some (Max (set xs)))"
  by (cases xs) (simp_all add: sql_max_def Max.set_eq_fold del: set_simps)

lemma concat_map_if: "concat (map (\<lambda>x. if P x then [f x] else []) xs) = map f (filter P xs)"
  by (induction xs) auto

lemma set_join3:
  "set (concat (map (\<lambda>a. concat (map (\<lambda>b. if P a b then if Q a then if R a then [f a b] else [] else [] else []) B)) A))
   = {f a b | a b. a \<in> set A \<and> b \<in> set B \<and> P a b \<and> Q a \<and> R a}"
proof (rule set_eqI)
  fix x
  show "x \<in> set (concat (map (\<lambda>a. concat (map (\<lambda>b. if P a b then if Q a then if R a then [f a b] else [] else [] else []) B)) A))
    \<longleftrightarrow> x \<in> {f a b | a b. a \<in> set A \<and> b \<in> set B \<and> P a b \<and> Q a \<and> R a}"
    by (simp split: if_splits) blast
qed


lemma chargeCalibration_levels:
  "set [level b. a \<leftarrow> charge db, b \<leftarrow> charge_curve db,
          DBCharge.charge_id a = DBChargeCurve.charge_id b,
          DBCharge.vehicle_uuid a = vehicle,
          Some (location_uuid a) = loc]
   = {level b | a b. a \<in> set (charge db) \<and> b \<in> set (charge_curve db)
        \<and> DBCharge.charge_id a = DBChargeCurve.charge_id b
        \<and> DBCharge.vehicle_uuid a = vehicle \<and> Some (location_uuid a) = loc}"
  by (rule set_join3)

lemma chargeCalibration_eq:
  "scalar_subquery [location_uuid c. c \<leftarrow> charge db, DBCharge.charge_id c = cid] = Inr loc \<Longrightarrow>
   chargeCalibration db vehicle cid =
     Inr (if {level b | a b. a \<in> set (charge db) \<and> b \<in> set (charge_curve db)
                \<and> DBCharge.charge_id a = DBChargeCurve.charge_id b
                \<and> DBCharge.vehicle_uuid a = vehicle \<and> Some (location_uuid a) = loc} = {}
          then None
          else Some (Max {level b | a b. a \<in> set (charge db) \<and> b \<in> set (charge_curve db)
                \<and> DBCharge.charge_id a = DBChargeCurve.charge_id b
                \<and> DBCharge.vehicle_uuid a = vehicle \<and> Some (location_uuid a) = loc}))"
  unfolding chargeCalibration_def sql_max_eq
  by (simp only: sum.case set_empty [symmetric] chargeCalibration_levels)


section \<open>Properties of the curve read\<close>

subsection \<open>The two loops\<close>

lemma adopt_append: "adopt (xs @ ys) cur = adopt ys (adopt xs cur)"
  by (simp add: adopt_def)

lemma shift_loop_eq:
  "shift_loop lv q cur =
     (dropWhile (\<lambda>e. fst e \<le> lv) q, adopt (takeWhile (\<lambda>e. fst e \<le> lv) q) cur)"
proof (induction lv q cur rule: shift_loop.induct)
  case (1 lv current)
  show ?case by (simp add: adopt_def)
next
  case (2 lv l s q current)
  show ?case
  proof (cases "l \<le> lv")
    case True
    with 2 have "shift_loop lv ((l, s) # q) current
        = (dropWhile (\<lambda>e. fst e \<le> lv) q, adopt (takeWhile (\<lambda>e. fst e \<le> lv) q) s)"
      by simp
    moreover have "adopt (takeWhile (\<lambda>e. fst e \<le> lv) ((l, s) # q)) current
        = adopt (takeWhile (\<lambda>e. fst e \<le> lv) q) s"
      using True adopt_append [of "[(l, s)]" "takeWhile (\<lambda>e. fst e \<le> lv) q" current]
      by (simp add: adopt_def)
    ultimately show ?thesis using True by simp
  next
    case False
    then show ?thesis by (simp add: adopt_def)
  qed
qed

lemma takeWhile_split:
  "(\<And>x. P x \<Longrightarrow> Q x) \<Longrightarrow> takeWhile Q xs = takeWhile P xs @ takeWhile Q (dropWhile P xs)"
  by (induction xs) auto

lemma curve_loop_eq:
  "curve_loop lv q cur curve =
     (\<lambda>L. if lv \<le> L \<and> L \<le> 100
          then Some (adopt (takeWhile (\<lambda>e. fst e \<le> L) q) cur)
          else curve L)"
proof (induction lv q cur curve rule: curve_loop.induct)
  case (1 lv q current curve)
  show ?case
  proof (cases "lv \<le> 100")
    case False
    then show ?thesis by (subst curve_loop.simps) (auto simp: fun_eq_iff)
  next
    case True
    let ?q' = "dropWhile (\<lambda>e. fst e \<le> lv) q"
    let ?c' = "adopt (takeWhile (\<lambda>e. fst e \<le> lv) q) current"
    have step: "curve_loop lv q current curve = curve_loop (lv + 1) ?q' ?c' (curve(lv \<mapsto> ?c'))"
      using True by (subst curve_loop.simps) (simp add: shift_loop_eq)
    have ih: "curve_loop (lv + 1) ?q' ?c' (curve(lv \<mapsto> ?c')) =
        (\<lambda>L. if lv + 1 \<le> L \<and> L \<le> 100
             then Some (adopt (takeWhile (\<lambda>e. fst e \<le> L) ?q') ?c')
             else (curve(lv \<mapsto> ?c')) L)"
      using True by (rule "1.IH") (simp_all add: shift_loop_eq)
    have merge: "adopt (takeWhile (\<lambda>e. fst e \<le> L) ?q') ?c' = adopt (takeWhile (\<lambda>e. fst e \<le> L) q) current"
      if "lv \<le> L" for L
    proof -
      have "takeWhile (\<lambda>e. fst e \<le> L) q
          = takeWhile (\<lambda>e. fst e \<le> lv) q @ takeWhile (\<lambda>e. fst e \<le> L) ?q'"
        using that by (intro takeWhile_split) simp
      then show ?thesis by (simp add: adopt_append)
    qed
    show ?thesis
      unfolding step ih using True by (auto simp: merge fun_eq_iff)
  qed
qed

lemma takeWhile_sorted_filter:
  "sorted (map fst q) \<Longrightarrow> takeWhile (\<lambda>e. fst e \<le> L) q = filter (\<lambda>e. fst e \<le> (L::int)) q"
proof (induction q)
  case Nil
  then show ?case by simp
next
  case (Cons e q)
  show ?case
  proof (cases "fst e \<le> L")
    case True
    with Cons show ?thesis by simp
  next
    case False
    with Cons.prems have "\<forall>x \<in> set q. \<not> fst x \<le> L" by force
    then have "filter (\<lambda>e. fst e \<le> L) q = []" by (simp add: filter_empty_conv)
    with False show ?thesis by simp
  qed
qed

subsection \<open>The median\<close>

lemma half_odd:
  assumes "odd (n::nat)"
  shows "\<lfloor>(1/2 :: rat) * of_nat (n - 1)\<rfloor> = int (n div 2)" "\<lceil>(1/2 :: rat) * of_nat (n - 1)\<rceil> = int (n div 2)"
proof -
  from assms obtain k where k: "n = 2 * k + 1" by (auto elim: oddE)
  then have "(1/2 :: rat) * of_nat (n - 1) = of_nat k" by simp
  moreover from k have "n div 2 = k" by simp
  ultimately show "\<lfloor>(1/2 :: rat) * of_nat (n - 1)\<rfloor> = int (n div 2)" "\<lceil>(1/2 :: rat) * of_nat (n - 1)\<rceil> = int (n div 2)"
    by simp_all
qed

lemma half_even:
  assumes "even (n::nat)" "0 < n"
  shows "\<lfloor>(1/2 :: rat) * of_nat (n - 1)\<rfloor> = int (n div 2 - 1)"
    "\<lceil>(1/2 :: rat) * of_nat (n - 1)\<rceil> = int (n div 2)"
    "(1/2 :: rat) * of_nat (n - 1) - of_nat (n div 2 - 1) = 1/2"
proof -
  from assms obtain j where j: "n = 2 * j" by (auto elim!: evenE)
  with assms(2) have "0 < j" by simp
  then obtain k where "j = k + 1" by (metis Suc_eq_plus1 Suc_pred)
  with j have k: "n = 2 * (k + 1)" by simp
  then have rn: "(1/2 :: rat) * of_nat (n - 1) = of_nat k + 1/2" by (simp add: field_simps)
  from k have d: "n div 2 = k + 1" by simp
  show "\<lfloor>(1/2 :: rat) * of_nat (n - 1)\<rfloor> = int (n div 2 - 1)"
    unfolding rn d by (simp add: floor_unique)
  show "\<lceil>(1/2 :: rat) * of_nat (n - 1)\<rceil> = int (n div 2)"
    unfolding rn d by (simp add: ceiling_unique)
  show "(1/2 :: rat) * of_nat (n - 1) - of_nat (n div 2 - 1) = 1/2"
    unfolding rn d by simp
qed

lemma percentile_cont_half:
  assumes "xs \<noteq> []"
  shows "percentile_cont (1/2) xs = Number (spec_median xs)"
proof -
  define s where "s = sort xs"
  define n where "n = length s"
  define rn where "rn = (1/2 :: rat) * of_nat (n - 1)"
  have n: "0 < n" using assms by (simp add: n_def s_def)
  have pc: "percentile_cont (1/2) xs =
      (if nat \<lfloor>rn\<rfloor> = nat \<lceil>rn\<rceil> then Number (of_int (s ! nat \<lfloor>rn\<rfloor>))
       else Number (of_int (s ! nat \<lfloor>rn\<rfloor>)
              + (rn - of_nat (nat \<lfloor>rn\<rfloor>)) * (of_int (s ! nat \<lceil>rn\<rceil>) - of_int (s ! nat \<lfloor>rn\<rfloor>))))"
    using assms by (simp add: percentile_cont_def Let_def s_def n_def rn_def)
  have sm: "spec_median xs =
      (if odd n then of_int (s ! (n div 2))
       else (of_int (s ! (n div 2 - 1)) + of_int (s ! (n div 2))) / 2)"
    by (simp add: spec_median_def Let_def s_def n_def)
  show ?thesis
  proof (cases "odd n")
    case True
    have "\<lfloor>rn\<rfloor> = int (n div 2)" "\<lceil>rn\<rceil> = int (n div 2)"
      unfolding rn_def using True by (rule half_odd)+
    then have "nat \<lfloor>rn\<rfloor> = n div 2" "nat \<lceil>rn\<rceil> = n div 2" by simp_all
    with True show ?thesis unfolding pc sm by simp
  next
    case False
    then have ev: "even n" by simp
    have f: "\<lfloor>rn\<rfloor> = int (n div 2 - 1)" and c: "\<lceil>rn\<rceil> = int (n div 2)"
      and p: "rn - of_nat (n div 2 - 1) = 1/2"
      unfolding rn_def using ev n by (rule half_even)+
    from f c have fc: "nat \<lfloor>rn\<rfloor> = n div 2 - 1" "nat \<lceil>rn\<rceil> = n div 2" by simp_all
    have neq: "n div 2 - 1 \<noteq> n div 2"
      using ev n by (auto elim!: evenE)
    have "percentile_cont (1/2) xs
        = Number (of_int (s ! (n div 2 - 1))
            + (1/2) * (of_int (s ! (n div 2)) - of_int (s ! (n div 2 - 1))))"
      unfolding pc fc using neq p by simp
    also have "of_int (s ! (n div 2 - 1))
            + (1/2) * (of_int (s ! (n div 2)) - of_int (s ! (n div 2 - 1)))
        = ((of_int (s ! (n div 2 - 1)) + of_int (s ! (n div 2))) / 2 :: rat)"
      by (simp add: field_simps)
    finally show ?thesis using False unfolding sm by simp
  qed
qed

subsection \<open>The queries and the curve\<close>

lemma concat_map_if_pair:
  "concat (map (\<lambda>(a, b). if P b then [f b] else []) xs)
     = map (\<lambda>(a, b). f b) (filter (\<lambda>(a, b). P b) xs)"
  by (induction xs) auto

lemma level_durations_eq:
  "level_durations db v l lv
     = map (\<lambda>(a, b). duration b) (filter (\<lambda>(a, b). level b = lv) (joined db v l))"
  unfolding level_durations_def by (rule concat_map_if_pair)

lemma level_durations_nonempty:
  "lv \<in> set (map (\<lambda>(a, b). level b) (joined db v l)) \<Longrightarrow> level_durations db v l lv \<noteq> []"
  by (auto simp: level_durations_eq filter_empty_conv)

lemma dbCurve_query_levels:
  "map fst (dbCurve_query db v l) = sort (remdups (map (\<lambda>(a, b). level b) (joined db v l)))"
  by (simp add: dbCurve_query_def comp_def)

lemma dbCurve_query_sorted: "sorted (map fst (dbCurve_query db v l))"
  by (simp only: dbCurve_query_levels sorted_sort)

lemma dbCurve_query_distinct: "distinct (map fst (dbCurve_query db v l))"
  by (simp only: dbCurve_query_levels distinct_sort distinct_remdups)

lemma dbCurve_query_entry:
  assumes "(lv, s) \<in> set (dbCurve_query db v l)"
  shows "level_durations db v l lv \<noteq> [] \<and> s = Number (spec_median (level_durations db v l lv))"
proof -
  from assms have lv: "lv \<in> set (map (\<lambda>(a, b). level b) (joined db v l))"
    and s: "s = percentile_cont (1/2) (level_durations db v l lv)"
    by (auto simp: dbCurve_query_def)
  from lv have "level_durations db v l lv \<noteq> []" by (rule level_durations_nonempty)
  with s show ?thesis by (simp add: percentile_cont_half)
qed



lemma getChargeCurve_measured:
  assumes "dbCurve_query db v l = (l0, s0) # rest"
  shows "getChargeCurve db v l =
     Inr (\<lambda>L. if 0 \<le> L \<and> L \<le> 100
              then Some (adopt (filter (\<lambda>e. fst e \<le> L) rest) s0) else None)"
proof -
  from assms have "(l0, s0) \<in> set (dbCurve_query db v l)" by simp
  then have s0: "s0 \<noteq> Null" by (auto dest: dbCurve_query_entry)
  have "sorted (map fst ((l0, s0) # rest))"
    using dbCurve_query_sorted [of db v l] by (simp only: assms)
  then have "sorted (map fst rest)" by simp
  then have "takeWhile (\<lambda>e. fst e \<le> L) rest = filter (\<lambda>e. fst e \<le> L) rest" for L
    by (rule takeWhile_sorted_filter)
  with s0 show ?thesis
    by (simp add: getChargeCurve_def assms curve_loop_eq cong: if_cong)
qed

lemma getChargeCurve_fallback:
  assumes "dbCurve_query db v l = []"
  shows "getChargeCurve db v l =
     Inr (\<lambda>L. if 0 \<le> L \<and> L \<le> 100
              then Some (fallback_seed (avg_duration_query db v l) (avg_estimate_query db v l))
              else None)"
proof -
  have "fallback_seed x y \<noteq> Null" for x y
    unfolding fallback_seed_def js_or_def by (cases x; cases y) auto
  then show ?thesis
    by (simp add: getChargeCurve_def assms curve_loop_eq adopt_def cong: if_cong)
qed

subsection \<open>Reading the curve off the query result\<close>

lemma last_filter_upto:
  "sorted (map fst q) \<Longrightarrow> distinct (map fst q) \<Longrightarrow> (lm, sm) \<in> set q \<Longrightarrow>
   last (filter (\<lambda>e. fst e \<le> (lm::int)) q) = (lm, sm)"
proof (induction q)
  case Nil
  then show ?case by simp
next
  case (Cons e q)
  show ?case
  proof (cases "e = (lm, sm)")
    case True
    with Cons.prems have "\<forall>x \<in> set q. \<not> fst x \<le> lm" by force
    then have "filter (\<lambda>e. fst e \<le> lm) q = []" by (simp add: filter_empty_conv)
    with True show ?thesis by simp
  next
    case False
    with Cons.prems have mem: "(lm, sm) \<in> set q" by simp
    with Cons.prems have le: "fst e \<le> lm" by force
    from mem have "filter (\<lambda>e. fst e \<le> lm) q \<noteq> []"
      by (force simp: filter_empty_conv)
    moreover from Cons.IH Cons.prems mem have "last (filter (\<lambda>e. fst e \<le> lm) q) = (lm, sm)"
      by simp
    ultimately show ?thesis using le by simp
  qed
qed

lemma adopt_none:
  "\<forall>(lm, sm) \<in> set rest. L < lm \<Longrightarrow> adopt (filter (\<lambda>e. fst e \<le> (L::int)) rest) s0 = s0"
proof -
  assume "\<forall>(lm, sm) \<in> set rest. L < lm"
  then have "filter (\<lambda>e. fst e \<le> L) rest = []"
    by (force simp: filter_empty_conv)
  then show ?thesis by (simp add: adopt_def)
qed

lemma adopt_greatest:
  assumes "sorted (map fst rest)" and "distinct (map fst rest)"
    and "(lm, sm) \<in> set rest" and "lm \<le> L"
    and "\<forall>(lm', sm') \<in> set rest. lm' \<le> L \<longrightarrow> lm' \<le> lm"
  shows "adopt (filter (\<lambda>e. fst e \<le> (L::int)) rest) s0 = sm"
proof -
  have "filter (\<lambda>e. fst e \<le> L) rest = filter (\<lambda>e. fst e \<le> lm) rest"
    using assms(4,5) by (intro filter_cong) auto
  moreover have "filter (\<lambda>e. fst e \<le> lm) rest \<noteq> []"
    using assms(3) by (force simp: filter_empty_conv)
  moreover have "last (filter (\<lambda>e. fst e \<le> lm) rest) = (lm, sm)"
    using assms(1,2,3) by (rule last_filter_upto)
  ultimately show ?thesis by (simp add: adopt_def)
qed

lemma dbCurve_query_rest:
  assumes "dbCurve_query db v l = (l0, s0) # rest"
  shows "sorted (map fst rest)" "distinct (map fst rest)" "\<forall>(lm, sm) \<in> set rest. l0 < lm"
proof -
  have s: "sorted (map fst ((l0, s0) # rest))"
    using dbCurve_query_sorted [of db v l] by (simp only: assms)
  have d: "distinct (map fst ((l0, s0) # rest))"
    using dbCurve_query_distinct [of db v l] by (simp only: assms)
  from s show "sorted (map fst rest)" by simp
  from d show "distinct (map fst rest)" by simp
  from s d show "\<forall>(lm, sm) \<in> set rest. l0 < lm" by (force simp: less_le)
qed

lemma map_const_upto:
  assumes "\<And>L. i \<le> L \<Longrightarrow> L \<le> j \<Longrightarrow> f L = c"
  shows "map f [i..j] = replicate (nat (j - i + 1)) c"
proof -
  have "map f [i..j] = map (\<lambda>_. c) [i..j]"
    using assms by (intro map_cong) auto
  then show ?thesis by (simp add: map_replicate_const)
qed

lemma dbCurve_query_numbers:
  "e \<in> set (dbCurve_query db v l) \<Longrightarrow> \<exists>x. snd e = Number x"
  by (cases e) (auto dest: dbCurve_query_entry)

lemma adopt_number:
  assumes "\<exists>x. s0 = Number x" and "\<forall>e \<in> set q. \<exists>x. snd e = Number x"
  shows "\<exists>x. adopt (filter P q) s0 = Number x"
proof (cases "filter P q = []")
  case True
  with assms(1) show ?thesis by (simp add: adopt_def)
next
  case False
  then have "last (filter P q) \<in> set (filter P q)" by (rule last_in_set)
  then have "last (filter P q) \<in> set q" by simp
  with assms(2) False show ?thesis by (simp add: adopt_def)
qed

lemma truthy_not_Null: "truthy x \<Longrightarrow> x \<noteq> Null"
  by (cases x) simp_all

lemma fallback_seed_not_Null: "fallback_seed a b \<noteq> Null"
  unfolding fallback_seed_def js_or_def using truthy_not_Null by auto

lemma not_Null_cases: "x \<noteq> Null \<Longrightarrow> (\<exists>r. x = Number r) \<or> (\<exists>n. x = NumericString n)"
  by (cases x) simp_all










lemma getChargeCurve_at_measured:
  assumes "(lv, s) \<in> set (dbCurve_query db v l)" and "0 \<le> lv" and "lv \<le> 100"
  shows "\<exists>curve. getChargeCurve db v l = Inr curve \<and> curve lv = Some s"
proof -
  from assms(1) obtain l0 s0 rest where q: "dbCurve_query db v l = (l0, s0) # rest"
    by (cases "dbCurve_query db v l") auto
  note rest = dbCurve_query_rest [OF q]
  have "adopt (filter (\<lambda>e. fst e \<le> lv) rest) s0 = s"
  proof (cases "(lv, s) = (l0, s0)")
    case True
    with rest(3) show ?thesis by (simp add: adopt_none)
  next
    case False
    with assms(1) q have "(lv, s) \<in> set rest" by auto
    then show ?thesis
      using rest(1,2) by (intro adopt_greatest) auto
  qed
  with getChargeCurve_measured [OF q] assms(2,3) show ?thesis by simp
qed

lemma dbCurve_query_has_level:
  assumes "level_durations db v l lv \<noteq> []"
  shows "(lv, Number (spec_median (level_durations db v l lv))) \<in> set (dbCurve_query db v l)"
proof -
  from assms have "lv \<in> set (map (\<lambda>(a, b). level b) (joined db v l))"
    by (auto simp: level_durations_eq filter_empty_conv)
  then have "(lv, percentile_cont (1/2) (level_durations db v l lv)) \<in> set (dbCurve_query db v l)"
    by (simp add: dbCurve_query_def)
  with assms show ?thesis by (simp add: percentile_cont_half)
qed



section \<open>The claims\<close>

subsection \<open>Claim C1: the step curve over measured levels\<close>

text \<open>
  C1. When the median query returns at least one row, \<open>(l0, s0)\<close> being the first and
  \<open>rest\<close> the others, \<^verbatim>\<open>getChargeCurve\<close> returns a curve; \<open>l0\<close> is the lowest measured
  level and its median \<open>s0\<close> is the seed; and at every level \<open>L\<close> from 0 to 100 the curve
  holds the seed as long as no row of \<open>rest\<close> has a level \<open>\<le> L\<close>, and otherwise the
  median of the row of \<open>rest\<close> with the greatest level \<open>\<le> L\<close>: a median is adopted at
  the first level that reaches its own level and is kept up to the next measured level.
  In particular, for the medians \<open>{10: 100, 50: 300}\<close> the curve is 100 on levels 0 to 49
  and 300 on levels 50 to 100.
\<close>

theorem C1_step_curve:
  assumes "dbCurve_query db v l = (l0, s0) # rest"
  shows "\<exists>curve. getChargeCurve db v l = Inr curve
     \<and> (\<forall>(lm, sm) \<in> set rest. l0 < lm)
     \<and> (\<forall>L. 0 \<le> L \<and> L \<le> 100 \<longrightarrow>
          ((\<forall>(lm, sm) \<in> set rest. L < lm) \<longrightarrow> curve L = Some s0)
          \<and> (\<forall>(lm, sm) \<in> set rest.
                lm \<le> L \<and> (\<forall>(lm', sm') \<in> set rest. lm' \<le> L \<longrightarrow> lm' \<le> lm)
                \<longrightarrow> curve L = Some sm))
     \<and> ((l0, s0) # rest = [(10, Number 100), (50, Number 300)] \<longrightarrow>
          (\<forall>L. 0 \<le> L \<and> L < 50 \<longrightarrow> curve L = Some (Number 100))
          \<and> (\<forall>L. 50 \<le> L \<and> L \<le> 100 \<longrightarrow> curve L = Some (Number 300)))"
proof -
  let ?curve = "\<lambda>L. if 0 \<le> L \<and> L \<le> 100
              then Some (adopt (filter (\<lambda>e. fst e \<le> L) rest) s0) else None"
  have get: "getChargeCurve db v l = Inr ?curve"
    using assms by (rule getChargeCurve_measured)
  note rest = dbCurve_query_rest [OF assms]
  have a: "?curve L = Some s0" if "0 \<le> L \<and> L \<le> 100" "\<forall>(lm, sm) \<in> set rest. L < lm" for L
    using that by (simp add: adopt_none)
  have b: "?curve L = Some sm"
    if "0 \<le> L \<and> L \<le> 100" "(lm, sm) \<in> set rest" "lm \<le> L"
      "\<forall>(lm', sm') \<in> set rest. lm' \<le> L \<longrightarrow> lm' \<le> lm" for L lm sm
    using that adopt_greatest [OF rest(1,2) that(2,3,4), of s0] by simp
  have c: "(\<forall>L. 0 \<le> L \<and> L < 50 \<longrightarrow> ?curve L = Some (Number 100))
          \<and> (\<forall>L. 50 \<le> L \<and> L \<le> 100 \<longrightarrow> ?curve L = Some (Number 300))"
    if "(l0, s0) # rest = [(10, Number 100), (50, Number 300)]"
    using that by (auto simp: adopt_def)
  show ?thesis
  proof (intro exI conjI)
    show "getChargeCurve db v l = Inr ?curve" by (rule get)
    show "\<forall>(lm, sm) \<in> set rest. l0 < lm" by (rule rest(3))
    show "\<forall>L. 0 \<le> L \<and> L \<le> 100 \<longrightarrow>
          ((\<forall>(lm, sm) \<in> set rest. L < lm) \<longrightarrow> ?curve L = Some s0)
          \<and> (\<forall>(lm, sm) \<in> set rest.
                lm \<le> L \<and> (\<forall>(lm', sm') \<in> set rest. lm' \<le> L \<longrightarrow> lm' \<le> lm)
                \<longrightarrow> ?curve L = Some sm)"
      using a b by blast
    show "(l0, s0) # rest = [(10, Number 100), (50, Number 300)] \<longrightarrow>
          (\<forall>L. 0 \<le> L \<and> L < 50 \<longrightarrow> ?curve L = Some (Number 100))
          \<and> (\<forall>L. 50 \<le> L \<and> L \<le> 100 \<longrightarrow> ?curve L = Some (Number 300))"
      using c by blast
  qed
qed

text \<open>
  The database \<open>example_db\<close> yields the medians \<open>{10: 100, 50: 300}\<close> for \<open>v1\<close> at
  \<open>home\<close>; the curve read off at the levels 0 to 100 is fifty times 100, then 51 times 300.
\<close>

theorem C1_step_curve_witness:
  "dbCurve_query example_db ''v1'' ''home'' = [(10, Number 100), (50, Number 300)]
   \<and> (\<exists>curve. getChargeCurve example_db ''v1'' ''home'' = Inr curve
        \<and> map curve [0..100]
          = replicate 50 (Some (Number 100)) @ replicate 51 (Some (Number 300)))"
proof -
  have q: "dbCurve_query example_db ''v1'' ''home'' = [(10, Number 100), (50, Number 300)]"
    by code_simp
  from C1_step_curve [OF q] obtain curve where
    get: "getChargeCurve example_db ''v1'' ''home'' = Inr curve"
    and lo: "\<And>L. 0 \<le> L \<Longrightarrow> L < 50 \<Longrightarrow> curve L = Some (Number 100)"
    and hi: "\<And>L. 50 \<le> L \<Longrightarrow> L \<le> 100 \<Longrightarrow> curve L = Some (Number 300)"
    by auto
  have "[0..100] = [0..49] @ [50..100::int]"
    using upto_split1 [of 0 50 100] by simp
  moreover have "map curve [0..49] = replicate 50 (Some (Number 100))"
    using map_const_upto [of 0 49 curve "Some (Number 100)"] lo by simp
  moreover have "map curve [50..100] = replicate 51 (Some (Number 300))"
    using map_const_upto [of 50 100 curve "Some (Number 300)"] hi by simp
  ultimately have "map curve [0..100]
      = replicate 50 (Some (Number 100)) @ replicate 51 (Some (Number 300))"
    by simp
  with q get show ?thesis by blast
qed

subsection \<open>Claim C2: the seed when no level has a sample\<close>



subsection \<open>Claim C3: the curve is total\<close>

text \<open>
  C3. For every database, vehicle and location, also with no row at all,
  \<^verbatim>\<open>getChargeCurve\<close> raises no error and returns a curve whose domain is exactly the
  levels 0 to 100, each mapped to a duration: a number, or the text of a numeric average.
\<close>

theorem C3_curve_total:
  "\<exists>curve. getChargeCurve db v l = Inr curve
     \<and> dom curve = {0..100}
     \<and> (\<forall>L \<in> {0..100}. (\<exists>x. curve L = Some (Number x))
                           \<or> (\<exists>n. curve L = Some (NumericString n)))"
proof (cases "dbCurve_query db v l")
  case Nil
  let ?curve = "\<lambda>L. if 0 \<le> L \<and> L \<le> 100
      then Some (fallback_seed (avg_duration_query db v l) (avg_estimate_query db v l))
      else None"
  have "getChargeCurve db v l = Inr ?curve"
    using Nil by (rule getChargeCurve_fallback)
  moreover have "dom ?curve = {0..100}"
    by (auto simp: dom_def)
  moreover have "\<forall>L \<in> {0..100}. (\<exists>x. ?curve L = Some (Number x))
                           \<or> (\<exists>n. ?curve L = Some (NumericString n))"
    using not_Null_cases [OF fallback_seed_not_Null,
        of "avg_duration_query db v l" "avg_estimate_query db v l"]
    by simp
  ultimately show ?thesis by blast
next
  case (Cons e rest)
  obtain l0 s0 where e: "e = (l0, s0)" by (cases e)
  let ?curve = "\<lambda>L. if 0 \<le> L \<and> L \<le> 100
      then Some (adopt (filter (\<lambda>e. fst e \<le> L) rest) s0) else None"
  have q: "dbCurve_query db v l = (l0, s0) # rest"
    using Cons e by simp
  have "\<exists>x. snd (l0, s0) = Number x"
    by (rule dbCurve_query_numbers [of _ db v l]) (simp add: q)
  then have s0: "\<exists>x. s0 = Number x" by simp
  have rest: "\<forall>e \<in> set rest. \<exists>x. snd e = Number x"
    using dbCurve_query_numbers [of _ db v l] by (simp add: q)
  have "getChargeCurve db v l = Inr ?curve"
    using q by (rule getChargeCurve_measured)
  moreover have "dom ?curve = {0..100}"
    by (auto simp: dom_def)
  moreover have "\<forall>L \<in> {0..100}. (\<exists>x. ?curve L = Some (Number x))
                           \<or> (\<exists>n. ?curve L = Some (NumericString n))"
    using adopt_number [OF s0 rest] by simp
  ultimately show ?thesis by blast
qed

text \<open>The empty database: a curve with domain 0 to 100 and the number 1200 at level 37.\<close>

theorem C3_curve_total_witness:
  "\<exists>curve. getChargeCurve \<lparr> charge = [], charge_curve = [] \<rparr> ''v1'' ''home'' = Inr curve
     \<and> dom curve = {0..100} \<and> (37::int) \<in> {0..100} \<and> curve 37 = Some (Number 1200)"
proof -
  let ?db = "\<lparr> charge = [], charge_curve = [] \<rparr>"
  have q: "dbCurve_query ?db ''v1'' ''home'' = []" by code_simp
  have a: "avg_duration_query ?db ''v1'' ''home'' = Null" by code_simp
  have b: "avg_estimate_query ?db ''v1'' ''home'' = Null" by code_simp
  have "fallback_seed Null Null = Number 1200"
    by (simp add: fallback_seed_def js_or_def)
  with getChargeCurve_fallback [OF q] a b
  have "getChargeCurve ?db ''v1'' ''home'' =
      Inr (\<lambda>L. if 0 \<le> L \<and> L \<le> 100 then Some (Number 1200) else None)"
    by (simp cong: if_cong)
  with C3_curve_total [of ?db "''v1''" "''home''"] show ?thesis
    by auto
qed

subsection \<open>Claim C4: range checks on a written sample\<close>

text \<open>
  C4 (as amended). \<^verbatim>\<open>setChargeCurve\<close> applies no range check to \<^verbatim>\<open>level\<close> or
  \<^verbatim>\<open>duration\<close>: for every level and every duration, also a level outside \<open>[0, 100]\<close>
  and a negative duration, the call returns a row that carries exactly the level and the
  duration supplied (nothing is clamped), and that row is in the table afterwards.
\<close>

theorem C4_no_validation:
  "level (fst (setChargeCurve db v c lv d t u a)) = lv \<and>
   duration (fst (setChargeCurve db v c lv d t u a)) = d \<and>
   fst (setChargeCurve db v c lv d t u a) \<in> set (charge_curve (snd (setChargeCurve db v c lv d t u a)))"
proof -
  have "level (input_row v c lv d t u a) = lv" "duration (input_row v c lv d t u a) = d"
    by (simp_all add: input_row_def)
  moreover have "input_row v c lv d t u a \<in> set (charge_curve (snd (setChargeCurve db v c lv d t u a)))"
  proof (cases "filter (\<lambda>r. curve_key r = (v, lv, c)) (charge_curve db) = []")
    case True
    then show ?thesis by (simp add: setChargeCurve_rows)
  next
    case False
    then obtain r where "r \<in> set (charge_curve db)" "curve_key r = (v, lv, c)"
      by (auto simp: filter_empty_conv)
    then have "input_row v c lv d t u a
        \<in> (\<lambda>r. if curve_key r = (v, lv, c) then input_row v c lv d t u a else r) ` set (charge_curve db)"
      by force
    with False show ?thesis by (simp add: setChargeCurve_rows)
  qed
  ultimately show ?thesis by (simp add: setChargeCurve_fst)
qed

text \<open>
  C4 as stated fails: a call with level 150 and duration -5 on an empty table is not
  rejected; the row is inserted as given.
\<close>

theorem C4_counterexample:
  "setChargeCurve \<lparr> charge = [], charge_curve = [] \<rparr> ''v1'' 1 150 (-5) Undefined Undefined Undefined
     = (\<lparr> vehicle_uuid = ''v1'', charge_id = 1, level = 150, duration = -5,
           outside_deci_temperature = None, energy_used = None, energy_added = None \<rparr>,
        \<lparr> charge = [],
          charge_curve =
            [\<lparr> vehicle_uuid = ''v1'', charge_id = 1, level = 150, duration = -5,
                outside_deci_temperature = None, energy_used = None, energy_added = None \<rparr>] \<rparr>)"
  by (simp add: setChargeCurve_def Let_def input_row_def)

text \<open>The amended statement at a level below 0 and at a negative duration.\<close>

theorem C4_no_validation_witness:
  "level (fst (setChargeCurve \<lparr> charge = [], charge_curve = [] \<rparr> ''v1'' 1 (-3) 60 Undefined Undefined Undefined)) = -3 \<and>
   duration (fst (setChargeCurve \<lparr> charge = [], charge_curve = [] \<rparr> ''v1'' 1 101 (-60) Undefined Undefined Undefined)) = -60"
  using C4_no_validation [of "\<lparr> charge = [], charge_curve = [] \<rparr>" "''v1''" 1 "-3" 60 Undefined Undefined Undefined]
    C4_no_validation [of "\<lparr> charge = [], charge_curve = [] \<rparr>" "''v1''" 1 101 "-60" Undefined Undefined Undefined]
  by simp

subsection \<open>Claim C5: an upsert that meets an existing row\<close>

text \<open>
  C5 (as amended). When the key \<open>(vehicle_uuid, level, charge_id)\<close> of the call is
  already in the table (and keys are unique), the row under that key holds afterwards the
  duration of the call and, for each of temperature, energy used and energy added, the
  value of the call when it is supplied and \<^verbatim>\<open>NULL\<close> when it is omitted, whatever the
  row held before; no row is added.
\<close>

theorem C5_conflict_overwrites:
  assumes "unique_keys db" and "r \<in> set (charge_curve db)" and "curve_key r = (v, lv, c)"
  shows "filter (\<lambda>x. curve_key x = (v, lv, c))
           (charge_curve (snd (setChargeCurve db v c lv d t u a)))
         = [\<lparr> vehicle_uuid = v, charge_id = c, level = lv, duration = d,
              outside_deci_temperature = (case t of Undefined \<Rightarrow> None | Defined x \<Rightarrow> Some x),
              energy_used = (case u of Undefined \<Rightarrow> None | Defined x \<Rightarrow> Some x),
              energy_added = (case a of Undefined \<Rightarrow> None | Defined x \<Rightarrow> Some x) \<rparr>]
       \<and> length (charge_curve (snd (setChargeCurve db v c lv d t u a))) = length (charge_curve db)"
proof -
  have row: "input_row v c lv d t u a
      = \<lparr> vehicle_uuid = v, charge_id = c, level = lv, duration = d,
          outside_deci_temperature = (case t of Undefined \<Rightarrow> None | Defined x \<Rightarrow> Some x),
          energy_used = (case u of Undefined \<Rightarrow> None | Defined x \<Rightarrow> Some x),
          energy_added = (case a of Undefined \<Rightarrow> None | Defined x \<Rightarrow> Some x) \<rparr>"
    by (simp add: input_row_def split: optional_number.splits)
  from assms(2,3) have ne: "filter (\<lambda>r. curve_key r = (v, lv, c)) (charge_curve db) \<noteq> []"
    by (auto simp: filter_empty_conv)
  then have "length (charge_curve (snd (setChargeCurve db v c lv d t u a))) = length (charge_curve db)"
    by (simp add: setChargeCurve_rows)
  with setChargeCurve_key_rows [OF assms(1), of v lv c d t u a] row show ?thesis
    by simp
qed

text \<open>
  C5 as stated fails: the stored row holds temperature 215 and energies 7 and 9; a call
  for the same key that omits all three optional fields leaves them \<^verbatim>\<open>NULL\<close>, not
  unchanged.
\<close>

theorem C5_counterexample:
  "setChargeCurve
     \<lparr> charge = [],
       charge_curve =
         [\<lparr> vehicle_uuid = ''v1'', charge_id = 1, level = 50, duration = 100,
             outside_deci_temperature = Some 215, energy_used = Some 7, energy_added = Some 9 \<rparr>] \<rparr>
     ''v1'' 1 50 120 Undefined Undefined Undefined
   = (\<lparr> vehicle_uuid = ''v1'', charge_id = 1, level = 50, duration = 120,
         outside_deci_temperature = None, energy_used = None, energy_added = None \<rparr>,
      \<lparr> charge = [],
        charge_curve =
          [\<lparr> vehicle_uuid = ''v1'', charge_id = 1, level = 50, duration = 120,
              outside_deci_temperature = None, energy_used = None, energy_added = None \<rparr>] \<rparr>)"
  by (simp add: setChargeCurve_def Let_def input_row_def conflicts_def curve_key_def do_update_def)

text \<open>The amended statement on that table, with the temperature supplied.\<close>

theorem C5_conflict_overwrites_witness:
  "unique_keys
     \<lparr> charge = [],
       charge_curve =
         [\<lparr> vehicle_uuid = ''v1'', charge_id = 1, level = 50, duration = 100,
             outside_deci_temperature = Some 215, energy_used = Some 7, energy_added = Some 9 \<rparr>] \<rparr>
   \<and> filter (\<lambda>x. curve_key x = (''v1'', 50, 1))
       (charge_curve (snd (setChargeCurve
          \<lparr> charge = [],
            charge_curve =
              [\<lparr> vehicle_uuid = ''v1'', charge_id = 1, level = 50, duration = 100,
                  outside_deci_temperature = Some 215, energy_used = Some 7, energy_added = Some 9 \<rparr>] \<rparr>
          ''v1'' 1 50 120 (Defined 180) Undefined Undefined)))
     = [\<lparr> vehicle_uuid = ''v1'', charge_id = 1, level = 50, duration = 120,
          outside_deci_temperature = Some 180, energy_used = None, energy_added = None \<rparr>]"
  using C5_conflict_overwrites [of
     "\<lparr> charge = [],
       charge_curve =
         [\<lparr> vehicle_uuid = ''v1'', charge_id = 1, level = 50, duration = 100,
             outside_deci_temperature = Some 215, energy_used = Some 7, energy_added = Some 9 \<rparr>] \<rparr>"
     "\<lparr> vehicle_uuid = ''v1'', charge_id = 1, level = 50, duration = 100,
             outside_deci_temperature = Some 215, energy_used = Some 7, energy_added = Some 9 \<rparr>"
     "''v1''" 50 1 120 "Defined 180" Undefined Undefined]
  by (simp add: unique_keys_def curve_key_def)

subsection \<open>Claim C6: the highest calibrated level\<close>

text \<open>
  C6. When no session has the given \<^verbatim>\<open>charge_id\<close>, \<^verbatim>\<open>chargeCalibration\<close> returns
  null. When exactly one session \<open>s\<close> has it, the result is the greatest level among the
  samples joined (by \<^verbatim>\<open>charge_id\<close>) to a session of the given vehicle at the location
  of \<open>s\<close>, and null when there is no such sample: a sample joined to a session at another
  location is not in that set, and no average or default enters the result.
\<close>

theorem C6_chargeCalibration:
  "(filter (\<lambda>s. DBCharge.charge_id s = cid) (charge db) = [] \<longrightarrow>
      chargeCalibration db vehicle cid = Inr None)
   \<and> (\<forall>s. filter (\<lambda>s. DBCharge.charge_id s = cid) (charge db) = [s] \<longrightarrow>
      chargeCalibration db vehicle cid =
        Inr (if {level b | a b. a \<in> set (charge db) \<and> b \<in> set (charge_curve db)
                    \<and> DBCharge.charge_id a = DBChargeCurve.charge_id b
                    \<and> DBCharge.vehicle_uuid a = vehicle
                    \<and> location_uuid a = location_uuid s} = {}
             then None
             else Some (Max {level b | a b. a \<in> set (charge db) \<and> b \<in> set (charge_curve db)
                    \<and> DBCharge.charge_id a = DBChargeCurve.charge_id b
                    \<and> DBCharge.vehicle_uuid a = vehicle
                    \<and> location_uuid a = location_uuid s})))"
proof (intro conjI allI impI)
  assume "filter (\<lambda>s. DBCharge.charge_id s = cid) (charge db) = []"
  then have "scalar_subquery [location_uuid c. c \<leftarrow> charge db, DBCharge.charge_id c = cid] = Inr None"
    by (simp add: concat_map_if scalar_subquery_def)
  from chargeCalibration_eq [OF this, of vehicle]
  show "chargeCalibration db vehicle cid = Inr None"
    by simp
next
  fix s
  assume "filter (\<lambda>s. DBCharge.charge_id s = cid) (charge db) = [s]"
  then have "scalar_subquery [location_uuid c. c \<leftarrow> charge db, DBCharge.charge_id c = cid]
      = Inr (Some (location_uuid s))"
    by (simp add: concat_map_if scalar_subquery_def)
  from chargeCalibration_eq [OF this, of vehicle]
  show "chargeCalibration db vehicle cid =
        Inr (if {level b | a b. a \<in> set (charge db) \<and> b \<in> set (charge_curve db)
                    \<and> DBCharge.charge_id a = DBChargeCurve.charge_id b
                    \<and> DBCharge.vehicle_uuid a = vehicle
                    \<and> location_uuid a = location_uuid s} = {}
             then None
             else Some (Max {level b | a b. a \<in> set (charge db) \<and> b \<in> set (charge_curve db)
                    \<and> DBCharge.charge_id a = DBChargeCurve.charge_id b
                    \<and> DBCharge.vehicle_uuid a = vehicle
                    \<and> location_uuid a = location_uuid s}))"
    by simp
qed

text \<open>
  In \<open>example_db\<close> session 2 is at \<open>home\<close>, where the samples have the levels 10 and 50:
  the result is 50, although level 70 is sampled at \<open>work\<close>. No session has the id 9.
\<close>

theorem C6_chargeCalibration_witness:
  "filter (\<lambda>s. DBCharge.charge_id s = 2) (charge example_db)
     = [\<lparr> DBCharge.charge_id = 2, vehicle_uuid = ''v1'', location_uuid = ''home'',
           target_level = 90, estimate = 100, end_level = 90 \<rparr>]
   \<and> chargeCalibration example_db ''v1'' 2 = Inr (Some 50)
   \<and> filter (\<lambda>s. DBCharge.charge_id s = 9) (charge example_db) = []
   \<and> chargeCalibration example_db ''v1'' 9 = Inr None"
proof -
  let ?s = "\<lparr> DBCharge.charge_id = 2, vehicle_uuid = ''v1'', location_uuid = ''home'',
           target_level = 90, estimate = 100, end_level = 90 \<rparr>"
  have one: "filter (\<lambda>s. DBCharge.charge_id s = 2) (charge example_db) = [?s]"
    by (simp add: example_db_def)
  have none: "filter (\<lambda>s. DBCharge.charge_id s = 9) (charge example_db) = []"
    by (simp add: example_db_def)
  have levels: "{level b | a b. a \<in> set (charge example_db) \<and> b \<in> set (charge_curve example_db)
                    \<and> DBCharge.charge_id a = DBChargeCurve.charge_id b
                    \<and> DBCharge.vehicle_uuid a = ''v1''
                    \<and> location_uuid a = location_uuid ?s} = {10, 50}"
  proof -
    have "{level b | a b. a \<in> set (charge example_db) \<and> b \<in> set (charge_curve example_db)
                    \<and> DBCharge.charge_id a = DBChargeCurve.charge_id b
                    \<and> DBCharge.vehicle_uuid a = ''v1''
                    \<and> location_uuid a = location_uuid ?s}
        = set [level b. a \<leftarrow> charge example_db, b \<leftarrow> charge_curve example_db,
                 DBCharge.charge_id a = DBChargeCurve.charge_id b,
                 DBCharge.vehicle_uuid a = ''v1'',
                 location_uuid a = location_uuid ?s]"
      by (rule set_join3 [symmetric])
    also have "\<dots> = {10, 50}"
      by (auto simp: example_db_def)
    finally show ?thesis .
  qed
  from C6_chargeCalibration [of 2 example_db "''v1''"] one
  have "chargeCalibration example_db ''v1'' 2 =
        Inr (if {level b | a b. a \<in> set (charge example_db) \<and> b \<in> set (charge_curve example_db)
                    \<and> DBCharge.charge_id a = DBChargeCurve.charge_id b
                    \<and> DBCharge.vehicle_uuid a = ''v1''
                    \<and> location_uuid a = location_uuid ?s} = {}
             then None
             else Some (Max {level b | a b. a \<in> set (charge example_db) \<and> b \<in> set (charge_curve example_db)
                    \<and> DBCharge.charge_id a = DBChargeCurve.charge_id b
                    \<and> DBCharge.vehicle_uuid a = ''v1''
                    \<and> location_uuid a = location_uuid ?s}))"
    by blast
  then have a: "chargeCalibration example_db ''v1'' 2 = Inr (Some 50)"
    unfolding levels by simp
  from C6_chargeCalibration [of 9 example_db "''v1''"] none
  have b: "chargeCalibration example_db ''v1'' 9 = Inr None"
    by blast
  from one a none b show ?thesis by blast
qed

subsection \<open>Claim C7: writing the same key twice\<close>

text \<open>
  C7. On a table with unique keys, two calls of \<^verbatim>\<open>setChargeCurve\<close> with the same
  \<open>(vehicle_uuid, charge_id, level)\<close> leave exactly one row under that key; it holds the
  duration and the optional fields of the second call, and the second call adds no row.
\<close>

theorem C7_upsert_twice:
  assumes "unique_keys db"
  shows "filter (\<lambda>x. curve_key x = (v, lv, c))
           (charge_curve (snd (setChargeCurve (snd (setChargeCurve db v c lv d1 t1 u1 a1))
                                 v c lv d2 t2 u2 a2)))
         = [\<lparr> vehicle_uuid = v, charge_id = c, level = lv, duration = d2,
              outside_deci_temperature = column_value t2,
              energy_used = column_value u2,
              energy_added = column_value a2 \<rparr>]
       \<and> length (charge_curve (snd (setChargeCurve (snd (setChargeCurve db v c lv d1 t1 u1 a1))
                                      v c lv d2 t2 u2 a2)))
         = length (charge_curve (snd (setChargeCurve db v c lv d1 t1 u1 a1)))"
proof -
  let ?db1 = "snd (setChargeCurve db v c lv d1 t1 u1 a1)"
  have u1: "unique_keys ?db1"
    using assms by (rule setChargeCurve_unique)
  have "filter (\<lambda>r. curve_key r = (v, lv, c)) (charge_curve ?db1) = [input_row v c lv d1 t1 u1 a1]"
    using assms by (rule setChargeCurve_key_rows)
  then have "filter (\<lambda>r. curve_key r = (v, lv, c)) (charge_curve ?db1) \<noteq> []"
    by simp
  then have len: "length (charge_curve (snd (setChargeCurve ?db1 v c lv d2 t2 u2 a2)))
      = length (charge_curve ?db1)"
    by (simp add: setChargeCurve_rows)
  have "filter (\<lambda>r. curve_key r = (v, lv, c))
          (charge_curve (snd (setChargeCurve ?db1 v c lv d2 t2 u2 a2)))
        = [input_row v c lv d2 t2 u2 a2]"
    using u1 by (rule setChargeCurve_key_rows)
  with len show ?thesis by (simp add: input_row_def)
qed

text \<open>Two writes of level 50 of session 1 to an empty table.\<close>

theorem C7_upsert_twice_witness:
  "unique_keys \<lparr> charge = [], charge_curve = [] \<rparr>
   \<and> charge_curve (snd (setChargeCurve
        (snd (setChargeCurve \<lparr> charge = [], charge_curve = [] \<rparr>
                ''v1'' 1 50 100 (Defined 215) Undefined Undefined))
        ''v1'' 1 50 120 Undefined (Defined 7) Undefined))
     = [\<lparr> vehicle_uuid = ''v1'', charge_id = 1, level = 50, duration = 120,
          outside_deci_temperature = None, energy_used = Some 7, energy_added = None \<rparr>]"
  using C7_upsert_twice [of "\<lparr> charge = [], charge_curve = [] \<rparr>"
     "''v1''" 50 1 100 "Defined 215" Undefined Undefined 120 Undefined "Defined 7" Undefined]
  by (simp add: unique_keys_def setChargeCurve_def Let_def input_row_def conflicts_def
        curve_key_def do_update_def)

subsection \<open>Claim C8: the per-level median\<close>

text \<open>
  C8. Every row \<open>(lv, s)\<close> of the median query has at least one sample at level \<open>lv\<close>
  for the vehicle and location, and \<open>s\<close> is the median of the durations of all those
  samples; every level with at least one sample has such a row, and when it lies between
  0 and 100 the curve holds that median at that level. \<^verbatim>\<open>percentile_cont(0.5)\<close> is the
  median (the middle value, or the mean of the two middle values), and on the durations
  10, 20 and 1000 it is 20.
\<close>

theorem C8_level_median:
  "(\<forall>(lv, s) \<in> set (dbCurve_query db v l).
       level_durations db v l lv \<noteq> []
       \<and> s = Number (spec_median (level_durations db v l lv)))
   \<and> (\<forall>lv. level_durations db v l lv \<noteq> [] \<longrightarrow>
         (lv, Number (spec_median (level_durations db v l lv))) \<in> set (dbCurve_query db v l)
         \<and> (0 \<le> lv \<and> lv \<le> 100 \<longrightarrow>
              (\<exists>curve. getChargeCurve db v l = Inr curve
                 \<and> curve lv = Some (Number (spec_median (level_durations db v l lv))))))
   \<and> (xs \<noteq> [] \<longrightarrow> percentile_cont (1/2) xs = Number (spec_median xs))
   \<and> percentile_cont (1/2) [10, 20, 1000] = Number 20"
proof (intro conjI)
  show "\<forall>(lv, s) \<in> set (dbCurve_query db v l).
       level_durations db v l lv \<noteq> []
       \<and> s = Number (spec_median (level_durations db v l lv))"
    using dbCurve_query_entry [of _ _ db v l] by blast
  show "\<forall>lv. level_durations db v l lv \<noteq> [] \<longrightarrow>
         (lv, Number (spec_median (level_durations db v l lv))) \<in> set (dbCurve_query db v l)
         \<and> (0 \<le> lv \<and> lv \<le> 100 \<longrightarrow>
              (\<exists>curve. getChargeCurve db v l = Inr curve
                 \<and> curve lv = Some (Number (spec_median (level_durations db v l lv)))))"
    using dbCurve_query_has_level [of db v l] getChargeCurve_at_measured [of _ _ db v l]
    by blast
  show "xs \<noteq> [] \<longrightarrow> percentile_cont (1/2) xs = Number (spec_median xs)"
    by (simp add: percentile_cont_half)
  show "percentile_cont (1/2) [10, 20, 1000] = Number 20"
    by code_simp
qed

text \<open>Three samples at level 20 with 1000, 10 and 20 seconds: the curve holds 20 at level 20.\<close>

theorem C8_level_median_witness:
  "level_durations outlier_db ''v1'' ''home'' 20 = [1000, 10, 20]
   \<and> spec_median [1000, 10, 20] = 20
   \<and> dbCurve_query outlier_db ''v1'' ''home'' = [(20, Number 20)]
   \<and> (\<exists>curve. getChargeCurve outlier_db ''v1'' ''home'' = Inr curve
         \<and> curve 20 = Some (Number 20))"
proof -
  have d: "level_durations outlier_db ''v1'' ''home'' 20 = [1000, 10, 20]" by code_simp
  have m: "spec_median [1000, 10, 20] = 20" by code_simp
  have q: "dbCurve_query outlier_db ''v1'' ''home'' = [(20, Number 20)]" by code_simp
  note t = C8_level_median [of outlier_db "''v1''" "''home''" "[1000, 10, 20]"]
  from t have "level_durations outlier_db ''v1'' ''home'' 20 \<noteq> [] \<longrightarrow>
         (0 \<le> (20::int) \<and> (20::int) \<le> 100 \<longrightarrow>
              (\<exists>curve. getChargeCurve outlier_db ''v1'' ''home'' = Inr curve
                 \<and> curve 20 = Some (Number (spec_median (level_durations outlier_db ''v1'' ''home'' 20)))))"
    by blast
  then have "\<exists>curve. getChargeCurve outlier_db ''v1'' ''home'' = Inr curve
         \<and> curve 20 = Some (Number (spec_median [1000, 10, 20]))"
    unfolding d by simp
  with d m q show ?thesis by simp
qed

subsection \<open>Claim C9: what an upsert leaves alone\<close>

text \<open>
  C9. A call of \<^verbatim>\<open>setChargeCurve\<close> leaves table \<^verbatim>\<open>charge\<close> unchanged; the rows of
  \<^verbatim>\<open>charge_curve\<close> whose key differs from the key of the call are the same rows, in
  the same order, before and after, so under every other key the table reads as before;
  and on a table with unique keys the keys stay unique and exactly one row sits under the
  key of the call.
\<close>

theorem C9_upsert_frame:
  "charge (snd (setChargeCurve db v c lv d t u a)) = charge db
   \<and> filter (\<lambda>r. curve_key r \<noteq> (v, lv, c)) (charge_curve (snd (setChargeCurve db v c lv d t u a)))
       = filter (\<lambda>r. curve_key r \<noteq> (v, lv, c)) (charge_curve db)
   \<and> (\<forall>k. k \<noteq> (v, lv, c) \<longrightarrow>
         filter (\<lambda>r. curve_key r = k) (charge_curve (snd (setChargeCurve db v c lv d t u a)))
           = filter (\<lambda>r. curve_key r = k) (charge_curve db))
   \<and> (unique_keys db \<longrightarrow>
         unique_keys (snd (setChargeCurve db v c lv d t u a))
         \<and> length (filter (\<lambda>r. curve_key r = (v, lv, c))
                     (charge_curve (snd (setChargeCurve db v c lv d t u a)))) = 1)"
proof -
  have neq: "filter (\<lambda>r. curve_key r \<noteq> (v, lv, c)) (charge_curve (snd (setChargeCurve db v c lv d t u a)))
       = filter (\<lambda>r. curve_key r \<noteq> (v, lv, c)) (charge_curve db)"
    by (simp add: setChargeCurve_rows filter_neq_overwrite)
  have other: "filter (\<lambda>r. curve_key r = k) (charge_curve (snd (setChargeCurve db v c lv d t u a)))
           = filter (\<lambda>r. curve_key r = k) (charge_curve db)" if "k \<noteq> (v, lv, c)" for k
    using that by (simp add: setChargeCurve_rows filter_other_overwrite)
  have one: "length (filter (\<lambda>r. curve_key r = (v, lv, c))
                     (charge_curve (snd (setChargeCurve db v c lv d t u a)))) = 1"
    if "unique_keys db"
    using setChargeCurve_key_rows [OF that, of v lv c d t u a] by simp
  from neq other one show ?thesis
    by (simp add: setChargeCurve_charge setChargeCurve_unique)
qed

text \<open>A write to level 50 next to a row of level 51.\<close>

theorem C9_upsert_frame_witness:
  "charge_curve (snd (setChargeCurve
      \<lparr> charge = [],
        charge_curve =
          [\<lparr> vehicle_uuid = ''v1'', charge_id = 1, level = 50, duration = 100,
              outside_deci_temperature = None, energy_used = None, energy_added = None \<rparr>,
           \<lparr> vehicle_uuid = ''v1'', charge_id = 1, level = 51, duration = 110,
              outside_deci_temperature = Some 215, energy_used = None, energy_added = None \<rparr>] \<rparr>
      ''v1'' 1 50 120 Undefined Undefined Undefined))
   = [\<lparr> vehicle_uuid = ''v1'', charge_id = 1, level = 50, duration = 120,
        outside_deci_temperature = None, energy_used = None, energy_added = None \<rparr>,
      \<lparr> vehicle_uuid = ''v1'', charge_id = 1, level = 51, duration = 110,
        outside_deci_temperature = Some 215, energy_used = None, energy_added = None \<rparr>]
   \<and> unique_keys (snd (setChargeCurve
      \<lparr> charge = [],
        charge_curve =
          [\<lparr> vehicle_uuid = ''v1'', charge_id = 1, level = 50, duration = 100,
              outside_deci_temperature = None, energy_used = None, energy_added = None \<rparr>,
           \<lparr> vehicle_uuid = ''v1'', charge_id = 1, level = 51, duration = 110,
              outside_deci_temperature = Some 215, energy_used = None, energy_added = None \<rparr>] \<rparr>
      ''v1'' 1 50 120 Undefined Undefined Undefined))"
  using C9_upsert_frame [of
      "\<lparr> charge = [],
        charge_curve =
          [\<lparr> vehicle_uuid = ''v1'', charge_id = 1, level = 50, duration = 100,
              outside_deci_temperature = None, energy_used = None, energy_added = None \<rparr>,
           \<lparr> vehicle_uuid = ''v1'', charge_id = 1, level = 51, duration = 110,
              outside_deci_temperature = Some 215, energy_used = None, energy_added = None \<rparr>] \<rparr>"
      "''v1''" 1 50 120 Undefined Undefined Undefined]
  by (simp add: unique_keys_def setChargeCurve_def Let_def input_row_def conflicts_def
        curve_key_def do_update_def)

subsection \<open>Claim C10: an average of exactly 0\<close>




end
